theory Spec2Isabelle
  imports Main
begin

section \<open>Python values\<close>

text \<open>
  A Python \<open>str\<close> is a sequence of Unicode code points; it is modelled as a list of
  natural numbers, so that \<open>ord(c) < 128\<close> and \<open>len\<close> mean what they mean in the
  source.  \<open>cps\<close> turns an ASCII literal of the source into that representation.
  \<open>str.lower\<close> depends on the Unicode case table of the interpreter; every function
  that calls it takes the lowering function as its first argument \<open>lw\<close>, and
  \<open>ascii_lower\<close> is what \<open>str.lower\<close> computes on ASCII text.
\<close>

type_synonym pystr = "nat list"

definition cps :: "string \<Rightarrow> pystr" where
  "cps s = map of_char s"

definition ascii_lower :: "pystr \<Rightarrow> pystr" where
  "ascii_lower s = map (\<lambda>c. if 65 \<le> c \<and> c \<le> 90 then c + 32 else c) s"

text \<open>The test \<open>sub in s\<close> on strings: \<open>sub\<close> occurs in \<open>s\<close> as a contiguous run.\<close>

fun starts_with :: "pystr \<Rightarrow> pystr \<Rightarrow> bool" where
  "starts_with [] s = True"
| "starts_with (k # ks) [] = False"
| "starts_with (k # ks) (c # cs) = (k = c \<and> starts_with ks cs)"

fun str_in :: "pystr \<Rightarrow> pystr \<Rightarrow> bool" where
  "str_in sub [] = (sub = [])"
| "str_in sub (c # cs) = (starts_with sub (c # cs) \<or> str_in sub cs)"

text \<open>Exceptions carry their class and their message (\<open>str(e)\<close>).\<close>

datatype exn_class =
  RuntimeError | KeyError | ValueError | WaitTimeoutError | UnknownValueError | RequestError | OtherError

datatype exn = Exn exn_class pystr

fun exn_str :: "exn \<Rightarrow> pystr" where
  "exn_str (Exn k m) = m"

section \<open>multiagent.py: ModelRouter\<close>

text \<open>
  The four task types are the keys \<open>'code'\<close>, \<open>'chat'\<close>, \<open>'creative'\<close> and
  \<open>'analysis'\<close> of \<open>task_patterns\<close>, \<open>scores\<close> and \<open>model_mapping\<close>; the dictionaries
  \<open>models\<close> and \<open>chains\<close> use the first two as their keys.
\<close>

datatype task = Code | Chat | Creative | Analysis

fun task_name :: "task \<Rightarrow> pystr" where
  "task_name Code = cps ''code''"
| "task_name Chat = cps ''chat''"
| "task_name Creative = cps ''creative''"
| "task_name Analysis = cps ''analysis''"

text \<open>An \<open>Ollama\<close> object is identified by the model name it was built with.\<close>

datatype ollama = Ollama pystr

text \<open>
  Each pattern of \<open>task_patterns\<close> is one group holding an alternation of literal
  words; it is kept as the list of its alternatives, in the order of the source.
\<close>

fun task_patterns :: "task \<Rightarrow> pystr list" where
  "task_patterns Code = map cps [''code'', ''program'', ''script'', ''function'', ''class'',
     ''bug'', ''error'', ''debug'', ''implement'', ''develop'']"
| "task_patterns Chat = map cps [''chat'', ''talk'', ''speak'', ''converse'', ''discuss'',
     ''explain'', ''help'', ''assist'']"
| "task_patterns Creative = map cps [''story'', ''poem'', ''creative'', ''imagine'',
     ''generate'', ''write'', ''compose'']"
| "task_patterns Analysis = map cps [''analyze'', ''examine'', ''investigate'', ''research'',
     ''study'', ''evaluate'']"

text \<open>
  \<open>re.findall\<close> for an alternation of non-empty literal words: scanning from the left,
  at each position the first alternative that matches there is taken and the scan
  resumes after it; where none matches the scan moves on by one character.
\<close>

fun first_alt :: "pystr list \<Rightarrow> pystr \<Rightarrow> pystr option" where
  "first_alt [] s = None"
| "first_alt (k # ks) s = (if starts_with k s then Some k else first_alt ks s)"

fun findall :: "pystr list \<Rightarrow> pystr \<Rightarrow> pystr list" where
  "findall alts [] = []"
| "findall alts (c # cs) =
     (case first_alt alts (c # cs) of
        None \<Rightarrow> findall alts cs
      | Some k \<Rightarrow> k # findall alts (drop (length k - 1) cs))"

text \<open>
  Python's \<open>max\<close> over an iterable keeps the first element whose key is maximal: a
  later element replaces the current best only when its key is strictly greater.  On an
  empty iterable it raises \<open>ValueError\<close>.
\<close>

fun max_from :: "('a \<Rightarrow> nat) \<Rightarrow> 'a \<Rightarrow> 'a list \<Rightarrow> 'a" where
  "max_from key best [] = best"
| "max_from key best (x # xs) = max_from key (if key best < key x then x else best) xs"

fun py_max :: "('a \<Rightarrow> nat) \<Rightarrow> 'a list \<Rightarrow> exn + 'a" where
  "py_max key [] = Inl (Exn ValueError [])"
| "py_max key (x # xs) = Inr (max_from key x xs)"

text \<open>
  \<open>score t query\<close> is \<open>len(re.findall(self.task_patterns[t], query))\<close>, and
  \<open>scores\<close> is the dictionary of the source as its items in insertion order.
\<close>

definition score :: "task \<Rightarrow> pystr \<Rightarrow> nat" where
  "score t query = length (findall (task_patterns t) query)"

definition scores :: "pystr \<Rightarrow> (task \<times> nat) list" where
  "scores query =
     [(Code, score Code query),
      (Chat, score Chat query),
      (Creative, score Creative query),
      (Analysis, score Analysis query)]"

fun model_mapping :: "task \<Rightarrow> task" where
  "model_mapping Code = Code"
| "model_mapping Chat = Chat"
| "model_mapping Creative = Chat"
| "model_mapping Analysis = Chat"

text \<open>Subscripting a dictionary raises \<open>KeyError\<close> on a missing key.\<close>

definition subscript :: "(task \<rightharpoonup> 'v) \<Rightarrow> task \<Rightarrow> exn + 'v" where
  "subscript d k = (case d k of None \<Rightarrow> Inl (Exn KeyError []) | Some v \<Rightarrow> Inr v)"

definition choose_model ::
  "(pystr \<Rightarrow> pystr) \<Rightarrow> (task \<rightharpoonup> ollama) \<Rightarrow> pystr \<Rightarrow> exn + (task \<times> ollama)" where
  "choose_model lw models query0 =
     (let query = lw query0; sc = scores query in
      case py_max id (map snd sc) of
        Inl e \<Rightarrow> Inl e
      | Inr mx \<Rightarrow>
          if mx = 0 then
            (case subscript models Chat of Inl e \<Rightarrow> Inl e | Inr m \<Rightarrow> Inr (Chat, m))
          else
            (case py_max snd sc of
               Inl e \<Rightarrow> Inl e
             | Inr best \<Rightarrow>
                 (let model_type = fst best;
                      chosen_type = model_mapping model_type
                  in case subscript models chosen_type of
                       Inl e \<Rightarrow> Inl e
                     | Inr m \<Rightarrow> Inr (model_type, m))))"

section \<open>The outside world\<close>

text \<open>
  Everything the program does to its surroundings is an event, and a run is the list of
  its events in the order they happen.  What the surroundings answer (a model's reply,
  the microphone, the clock, the file system) is given by a \<open>world\<close>: each of its
  fields answers one kind of request, given the events so far, so that a backend may
  fail on one call and answer the next.
\<close>

type_synonym audio = nat

datatype level = Info | Warning | Error

datatype event =
    Print pystr
  | Log level pystr
  | Sleep nat
  | Invoke ollama pystr
  | MicOpen
  | Listen
  | Recognize audio "pystr option"
  | WriteFile pystr pystr
  | TtsSave pystr pystr pystr
  | PlaySound pystr
  | Remove pystr
  | Say pystr
  | Post pystr

type_synonym trace = "event list"

record world =
  w_invoke :: "trace \<Rightarrow> ollama \<Rightarrow> pystr \<Rightarrow> exn + pystr"
  w_mic :: "trace \<Rightarrow> exn option"
  w_listen :: "trace \<Rightarrow> exn + audio"
  w_recognize :: "trace \<Rightarrow> audio \<Rightarrow> pystr option \<Rightarrow> exn + pystr"
  w_time :: "trace \<Rightarrow> nat"
  w_write :: "trace \<Rightarrow> pystr \<Rightarrow> pystr \<Rightarrow> exn option"
  w_tts :: "trace \<Rightarrow> pystr \<Rightarrow> pystr \<Rightarrow> pystr \<Rightarrow> exn option"
  w_play :: "trace \<Rightarrow> pystr \<Rightarrow> exn option"
  w_say :: "trace \<Rightarrow> pystr \<Rightarrow> exn option"
  w_post :: "trace \<Rightarrow> pystr \<Rightarrow> exn + (nat \<times> (exn + pystr))"


section \<open>multiagent.py: MultiAgentAssistant\<close>

text \<open>
  An \<open>LLMChain\<close> is its model and its prompt template; both templates of the source
  are a fixed text followed by \<open>{query}\<close>, so a template is kept as that text.
\<close>

datatype llmchain = LLMChain ollama pystr

record assistant =
  models :: "task \<rightharpoonup> ollama"
  chains :: "task \<rightharpoonup> llmchain"

text \<open>The model names and the prompt templates that \<open>__init__\<close> uses.\<close>

definition mistral :: pystr where
  "mistral = cps ''mistral:7b-instruct-q4_K_M''"

definition neural_chat :: pystr where
  "neural_chat = cps ''neural-chat:7b-v3.3-q4_K_M''"

definition llama2 :: pystr where
  "llama2 = cps ''llama2:7b-chat-q4_K_M''"

definition codellama :: pystr where
  "codellama = cps ''codellama:7b-instruct-q4_K_M''"

definition chat_template :: pystr where
  "chat_template = cps ''You are a helpful AI assistant. ''"

definition code_template :: pystr where
  "code_template = cps ''You are an expert programmer. ''"

text \<open>
  \<open>__init__\<close>, from the list of names that \<open>_check_available_models\<close> returned:
  the object it builds, or the \<open>RuntimeError\<close> it raises.  The lines that the two
  methods print on the way (the list of models, the warning that the chat model stands
  in for the code model) are left out of the result.
\<close>

definition assistant_init :: "pystr list \<Rightarrow> exn + assistant" where
  "assistant_init available_models =
     (let chat =
        (if mistral \<in> set available_models then Inr (Ollama mistral)
         else if neural_chat \<in> set available_models then Inr (Ollama neural_chat)
         else if llama2 \<in> set available_models then Inr (Ollama llama2)
         else Inl (Exn RuntimeError (cps ''No suitable chat model available'')))
      in case chat of
           Inl e \<Rightarrow> Inl e
         | Inr chat_model \<Rightarrow>
             (let code_model =
                (if codellama \<in> set available_models then Ollama codellama
                 else chat_model)
              in Inr \<lparr> models = [Chat \<mapsto> chat_model, Code \<mapsto> code_model],
                       chains = [Chat \<mapsto> LLMChain chat_model chat_template,
                                 Code \<mapsto> LLMChain code_model code_template] \<rparr>))"

text \<open>\<open>chain.arun(query=query)\<close>: one invocation of the chain's model.\<close>

fun arun :: "world \<Rightarrow> llmchain \<Rightarrow> pystr \<Rightarrow> trace \<Rightarrow> (exn + pystr) \<times> trace" where
  "arun w (LLMChain m template) query tr =
     (w_invoke w tr m (template @ query), tr @ [Invoke m (template @ query)])"

text \<open>
  \<open>process_query\<close>.  \<open>self.chains.get(task_type, self.chains['chat'])\<close> evaluates its
  default first, so a missing \<open>'chat'\<close> chain raises before anything is invoked.
\<close>

definition process_query ::
  "(pystr \<Rightarrow> pystr) \<Rightarrow> world \<Rightarrow> assistant \<Rightarrow> pystr \<Rightarrow> trace \<Rightarrow> (exn + pystr) \<times> trace" where
  "process_query lw w a query tr =
     (case choose_model lw (models a) query of
        Inl e \<Rightarrow> (Inl e, tr)
      | Inr (task_type, model) \<Rightarrow>
          (case subscript (chains a) Chat of
             Inl e \<Rightarrow> (Inl e, tr)
           | Inr chat_chain \<Rightarrow>
               (let chain = (case chains a task_type of None \<Rightarrow> chat_chain | Some c \<Rightarrow> c)
                in case arun w chain query tr of
                     (Inr response, tr1) \<Rightarrow> (Inr response, tr1)
                   | (Inl e, tr1) \<Rightarrow>
                       (let tr2 = tr1 @ [Print (cps ''Error processing query with ''
                                    @ task_name task_type @ cps '' model: '' @ exn_str e)]
                        in if task_type \<noteq> Chat
                           then arun w chat_chain query (tr2 @ [Print (cps ''Falling back to chat model'')])
                           else (Inl e, tr2)))))"

section \<open>main.py: MultiAgent\<close>

text \<open>
  The fields of the object that the methods below read or change: the dictionary
  \<open>models\<close> built by \<open>setup_models\<close>, the directory \<open>temp_dir\<close> and the counter
  \<open>audio_counter\<close>.  A method takes and returns the counter together with the trace.
\<close>

record multi_agent =
  agent_models :: "task \<rightharpoonup> ollama"
  temp_dir :: pystr

type_synonym mstate = "nat \<times> trace"

text \<open>Decimal digits of a number, as \<open>str\<close> of an \<open>int\<close> that is not negative.\<close>

fun str_of_nat :: "nat \<Rightarrow> pystr" where
  "str_of_nat n = (if n < 10 then [48 + n] else str_of_nat (n div 10) @ [48 + n mod 10])"

declare str_of_nat.simps [simp del]

subsection \<open>listen\<close>






subsection \<open>speak\<close>

definition speak_lang :: "pystr \<Rightarrow> pystr" where
  "speak_lang text = (if list_ex (\<lambda>c. c < 128) text then cps ''en'' else cps ''fa'')"

text \<open>
  \<open>gTTS(text=text, lang=lang)\<close> followed by \<open>tts.save(temp_file)\<close> is one request to
  the world; a failure of \<open>os.remove\<close> is swallowed where it happens.
  \<open>os.path.join\<close> puts one separator between the directory and the file name.
\<close>

fun speak_loop ::
  "world \<Rightarrow> multi_agent \<Rightarrow> pystr \<Rightarrow> nat \<Rightarrow> nat list \<Rightarrow> mstate \<Rightarrow> mstate" where
  "speak_loop w ag text max_retries [] st = st"
| "speak_loop w ag text max_retries (attempt # rest) (audio_counter, tr) =
     (let lang = speak_lang text;
          audio_counter = audio_counter + 1;
          temp_file = temp_dir ag @ cps ''/speech_'' @ str_of_nat audio_counter @ cps ''.mp3'';
          tr1 = tr @ [TtsSave text lang temp_file];
          failed = (\<lambda>e tr'.
            (let tr2 = tr' @ [Log Error (cps ''Speech error (attempt '' @ str_of_nat (attempt + 1)
                               @ cps ''/'' @ str_of_nat max_retries @ cps ''): '' @ exn_str e)];
                 tr3 = (if attempt = max_retries - 1
                        then tr2 @ [Log Warning
                               (cps ''Failed to generate speech, continuing with text only'')]
                        else tr2 @ [Sleep 1])
             in speak_loop w ag text max_retries rest (audio_counter, tr3)))
      in case w_tts w tr text lang temp_file of
           Some e \<Rightarrow> failed e tr1
         | None \<Rightarrow>
             (case w_play w tr1 temp_file of
                Some e \<Rightarrow> failed e (tr1 @ [PlaySound temp_file])
              | None \<Rightarrow> (audio_counter, tr1 @ [PlaySound temp_file, Remove temp_file])))"

definition speak :: "world \<Rightarrow> multi_agent \<Rightarrow> pystr \<Rightarrow> mstate \<Rightarrow> mstate" where
  "speak w ag text st =
     (let max_retries = 3 in
      speak_loop w ag text max_retries [0..<max_retries]
        (fst st, snd st @ [Print (10 # cps ''AI: '' @ text)]))"

subsection \<open>process_command\<close>

definition indent :: pystr where
  "indent = replicate 20 32"

definition code_prompt :: "pystr \<Rightarrow> pystr" where
  "code_prompt command =
     cps ''Please write a complete Python script for the following request: '' @ command
     @ [10, 10]
     @ indent @ cps ''Requirements:'' @ [10]
     @ indent @ cps ''1. Include all necessary imports'' @ [10]
     @ indent @ cps ''2. Add error handling'' @ [10]
     @ indent @ cps ''3. Include comments explaining the code'' @ [10]
     @ indent @ cps ''4. Make the code runnable as a standalone script'' @ [10]
     @ indent @ cps ''5. Provide instructions on how to run the code'' @ [10, 10]
     @ indent @ cps ''Please format your response as follows:'' @ [10]
     @ indent @ cps ''1. First explain what the code does'' @ [10]
     @ indent @ cps ''2. Then show the complete code'' @ [10]
     @ indent @ cps ''3. Finally provide instructions for running it''"

definition enhanced_prompt :: "pystr \<Rightarrow> pystr" where
  "enhanced_prompt command =
     cps ''Please provide a comprehensive response to: '' @ command
     @ [10, 10]
     @ indent @ cps ''Requirements:'' @ [10]
     @ indent @ cps ''1. Break down complex topics into understandable components'' @ [10]
     @ indent @ cps ''2. Provide detailed explanations with logical reasoning'' @ [10]
     @ indent @ cps ''3. Include relevant examples and analogies'' @ [10]
     @ indent @ cps ''4. Consider multiple perspectives'' @ [10]
     @ indent @ cps ''5. Suggest related concepts for deeper understanding'' @ [10]
     @ indent @ cps ''6. Keep the response clear and engaging'' @ [10]
     @ indent @ [10]
     @ indent @ cps ''If this is a language learning request:'' @ [10]
     @ indent @ cps ''1. Start with basic concepts'' @ [10]
     @ indent @ cps ''2. Provide practical examples'' @ [10]
     @ indent @ cps ''3. Include pronunciation tips if relevant'' @ [10]
     @ indent @ cps ''4. Suggest practice exercises'' @ [10]
     @ indent @ cps ''5. Make it interactive and engaging''"

definition code_keywords :: "pystr list" where
  "code_keywords = map cps [''code'', ''program'', ''script'', ''function'', ''debug'',
     ''run'', ''execute'', ''write'', ''create'']"

definition is_code_query :: "(pystr \<Rightarrow> pystr) \<Rightarrow> pystr \<Rightarrow> bool" where
  "is_code_query lw command = list_ex (\<lambda>keyword. str_in keyword (lw command)) code_keywords"

text \<open>
  The pattern \<open>```python\n(.*?)\n```\<close> with \<open>re.DOTALL\<close>: the opening fence with its
  newline, the shortest text that a newline and a closing fence follow, and that fence.
  \<open>until_close s\<close> is that shortest text when \<open>s\<close> is what follows the opening fence;
  \<open>first_code_block\<close> is \<open>code_blocks[0]\<close>, and \<open>None\<close> when \<open>code_blocks\<close> is empty.
\<close>

definition fence_open :: pystr where
  "fence_open = cps ''```python'' @ [10]"

definition fence_close :: pystr where
  "fence_close = 10 # cps ''```''"

fun until_close :: "pystr \<Rightarrow> pystr option" where
  "until_close [] = None"
| "until_close (c # cs) =
     (if starts_with fence_close (c # cs) then Some []
      else map_option ((#) c) (until_close cs))"

fun first_code_block :: "pystr \<Rightarrow> pystr option" where
  "first_code_block [] = None"
| "first_code_block (c # cs) =
     (if starts_with fence_open (c # cs)
      then (case until_close (drop (length fence_open) (c # cs)) of
              Some block \<Rightarrow> Some block
            | None \<Rightarrow> first_code_block cs)
      else first_code_block cs)"

definition didnt_catch :: pystr where
  "didnt_catch = cps ''I didn'' @ [39] @ cps ''t catch that. Could you please try again?''"

definition code_error_msg :: pystr where
  "code_error_msg =
     cps ''There was an error generating the code. Please try rephrasing your request.''"

definition command_error_msg :: pystr where
  "command_error_msg =
     cps ''I encountered an error processing that command. Could you try rephrasing it?''"

definition saved_note :: "pystr \<Rightarrow> pystr" where
  "saved_note script_name =
     [10, 10] @ cps ''I'' @ [39] @ cps ''ve saved the code to '' @ script_name
     @ cps ''. You can run it using '' @ [39] @ cps ''python '' @ script_name @ [39]"

text \<open>The branch of a code query: the inner \<open>try\<close> with its \<open>except\<close>.\<close>

definition code_branch :: "world \<Rightarrow> multi_agent \<Rightarrow> pystr \<Rightarrow> trace \<Rightarrow> pystr \<times> trace" where
  "code_branch w ag command tr =
     (let failed = (\<lambda>e tr'. (code_error_msg,
                      tr' @ [Log Error (cps ''Code generation error: '' @ exn_str e)]))
      in case subscript (agent_models ag) Code of
           Inl e \<Rightarrow> failed e tr
         | Inr m \<Rightarrow>
             (case w_invoke w tr m (code_prompt command) of
                Inl e \<Rightarrow> failed e (tr @ [Invoke m (code_prompt command)])
              | Inr code_response \<Rightarrow>
                  (let tr1 = tr @ [Invoke m (code_prompt command)] in
                   if str_in (cps ''```python'') code_response then
                     (case first_code_block code_response of
                        Some block \<Rightarrow>
                          (let script_name = cps ''generated_script_''
                                 @ str_of_nat (w_time w tr1) @ cps ''.py''
                           in case w_write w tr1 script_name block of
                                Some e \<Rightarrow> failed e (tr1 @ [WriteFile script_name block])
                              | None \<Rightarrow> (code_response @ saved_note script_name,
                                         tr1 @ [WriteFile script_name block]))
                      | None \<Rightarrow> (code_response, tr1))
                   else (code_response, tr1))))"

text \<open>
  The branch of any other query: the result is the returned text, or the exception
  that leaves the branch (from the fallback call in the \<open>except\<close> clause).
\<close>

definition chat_branch ::
  "world \<Rightarrow> multi_agent \<Rightarrow> pystr \<Rightarrow> trace \<Rightarrow> (exn + pystr) \<times> trace" where
  "chat_branch w ag command tr =
     (let fallback = (\<lambda>e tr'.
            (let tr2 = tr' @ [Log Error (cps ''Error in processing: '' @ exn_str e)] in
             case subscript (agent_models ag) Chat of
               Inl e2 \<Rightarrow> (Inl e2, tr2)
             | Inr m \<Rightarrow> (w_invoke w tr2 m command, tr2 @ [Invoke m command])))
      in case subscript (agent_models ag) Chat of
           Inl e \<Rightarrow> fallback e tr
         | Inr m \<Rightarrow>
             (case w_invoke w tr m (enhanced_prompt command) of
                Inr response \<Rightarrow> (Inr response, tr @ [Invoke m (enhanced_prompt command)])
              | Inl e \<Rightarrow> fallback e (tr @ [Invoke m (enhanced_prompt command)])))"

text \<open>\<open>not command\<close> holds for \<open>None\<close> and for the empty string.\<close>

definition process_command ::
  "(pystr \<Rightarrow> pystr) \<Rightarrow> world \<Rightarrow> multi_agent \<Rightarrow> pystr option \<Rightarrow> trace \<Rightarrow> pystr \<times> trace" where
  "process_command lw w ag cmd tr =
     (case cmd of
        None \<Rightarrow> (didnt_catch, tr)
      | Some command \<Rightarrow>
          if command = [] then (didnt_catch, tr)
          else if is_code_query lw command then
            code_branch w ag command (tr @ [Log Info (cps ''Processing code query...'')])
          else
            (case chat_branch w ag command
                    (tr @ [Log Info (cps ''Processing query with direct model call...'')]) of
               (Inr response, tr1) \<Rightarrow> (response, tr1)
             | (Inl e, tr1) \<Rightarrow>
                 (command_error_msg,
                  tr1 @ [Log Error (cps ''Error processing command: '' @ exn_str e)])))"

subsection \<open>run\<close>

datatype control = Break | Continue



section \<open>multiagent.py: MultiAgent\<close>






section \<open>Reading a trace\<close>

text \<open>
  Readings of a trace: the text and language of each speech synthesis request, the
  number of times the microphone was opened, and the pauses, in order.
\<close>

fun tts_requests :: "trace \<Rightarrow> (pystr \<times> pystr) list" where
  "tts_requests [] = []"
| "tts_requests (TtsSave t l f # es) = (t, l) # tts_requests es"
| "tts_requests (e # es) = tts_requests es"



section \<open>Concrete inputs\<close>

text \<open>
  A router whose two models are both present; a world in which every request fails and
  one in which only the models answer; the assistant that \<open>__init__\<close> builds when
  the chat model and the code model are both available, and the one it builds when
  only \<open>llama2\<close> is; an agent of \<open>main.py\<close>; some queries.
\<close>

definition two_models :: "task \<rightharpoonup> ollama" where
  "two_models = [Chat \<mapsto> Ollama (cps ''chat-model''), Code \<mapsto> Ollama (cps ''code-model'')]"

definition down :: exn where
  "down = Exn OtherError (cps ''connection refused'')"

definition dead_world :: world where
  "dead_world = \<lparr> w_invoke = (\<lambda>tr m p. Inl down),
     w_mic = (\<lambda>tr. Some down), w_listen = (\<lambda>tr. Inl down),
     w_recognize = (\<lambda>tr a l. Inl down), w_time = (\<lambda>tr. 0),
     w_write = (\<lambda>tr n c. Some down), w_tts = (\<lambda>tr t l f. Some down),
     w_play = (\<lambda>tr f. Some down), w_say = (\<lambda>tr t. Some down),
     w_post = (\<lambda>tr p. Inl down) \<rparr>"

definition echo_world :: world where
  "echo_world = dead_world \<lparr> w_invoke := (\<lambda>tr m p. Inr (cps ''ok'')) \<rparr>"



definition q_debug :: pystr where
  "q_debug = cps ''Debug this''"

definition q_story :: pystr where
  "q_story = cps ''Tell me a story''"

definition llama_assistant :: assistant where
  "llama_assistant =
     \<lparr> models = [Chat \<mapsto> Ollama llama2, Code \<mapsto> Ollama llama2],
       chains = [Chat \<mapsto> LLMChain (Ollama llama2) chat_template,
                 Code \<mapsto> LLMChain (Ollama llama2) code_template] \<rparr>"

definition agent0 :: multi_agent where
  "agent0 = \<lparr> agent_models = two_models, temp_dir = cps ''/tmp/tmpab12'' \<rparr>"

text \<open>
  A reply that embeds one code block; a world whose models give that reply and whose
  file system refuses every write, and the same world with a file system that accepts.
\<close>

definition reply_block :: pystr where
  "reply_block = cps ''Here it is:'' @ [10] @ cps ''```python'' @ [10] @ cps ''print(1)''
     @ [10] @ cps ''```'' @ [10] @ cps ''Run it.''"

definition nowrite_world :: world where
  "nowrite_world = dead_world \<lparr> w_invoke := (\<lambda>tr m p. Inr reply_block),
                                w_time := (\<lambda>tr. 1712) \<rparr>"

definition disk_world :: world where
  "disk_world = nowrite_world \<lparr> w_write := (\<lambda>tr n c. None) \<rparr>"

text \<open>A Persian word, and a text that mixes it with ASCII characters.\<close>

definition salam :: pystr where
  "salam = [1587, 1604, 1575, 1605]"

definition mixed_text :: pystr where
  "mixed_text = cps ''Salam: '' @ salam"










section \<open>Notions used in the statements\<close>

text \<open>
  \<open>first_best a b c d\<close> names the first of the four task types, in the order of the
  dictionary \<open>scores\<close>, whose score is the greatest, for the scores \<open>a\<close>, \<open>b\<close>, \<open>c\<close>
  and \<open>d\<close> of code, chat, creative and analysis.
\<close>

definition first_best :: "nat \<Rightarrow> nat \<Rightarrow> nat \<Rightarrow> nat \<Rightarrow> task" where
  "first_best a b c d =
     (if b \<le> a \<and> c \<le> a \<and> d \<le> a then Code
      else if c \<le> b \<and> d \<le> b then Chat
      else if d \<le> c then Creative else Analysis)"


text \<open>
  \<open>first_chat available\<close> is the name of the chat model that \<open>__init__\<close> prefers
  among the available ones: \<open>mistral\<close>, then \<open>neural-chat\<close>, then \<open>llama2\<close>.
\<close>

definition first_chat :: "pystr list \<Rightarrow> pystr" where
  "first_chat available =
     (if mistral \<in> set available then mistral
      else if neural_chat \<in> set available then neural_chat else llama2)"

text \<open>
  \<open>block_at s i b\<close>: in \<open>s\<close> an opening fence starts at position \<open>i\<close>, and \<open>b\<close> is
  a text between it and some closing fence.
\<close>

definition block_at :: "pystr \<Rightarrow> nat \<Rightarrow> pystr \<Rightarrow> bool" where
  "block_at s i b \<longleftrightarrow>
     (\<exists>pre post. length pre = i \<and> s = pre @ fence_open @ b @ fence_close @ post)"



section \<open>The classifier: \<open>ModelRouter.choose_model\<close>\<close>

lemma task_all: "(\<forall>u. P u) \<longleftrightarrow> P Code \<and> P Chat \<and> P Creative \<and> P Analysis"
  by (metis task.exhaust)

lemma task_ex: "(\<exists>u. P u) \<longleftrightarrow> P Code \<or> P Chat \<or> P Creative \<or> P Analysis"
  by (metis task.exhaust)

lemma max_items:
  "max_from snd (Code, a) [(Chat, b), (Creative, c), (Analysis, d)]
     = (first_best a b c d, max (max (max a b) c) d)"
  by (simp add: first_best_def max_def)

lemma max_values: "max_from id a [b, c, d] = max (max (max a b) c) d"
  by (simp add: max_def)

lemma score_empty: "score u [] = 0"
  by (simp add: score_def)

lemma choose_model_zero:
  assumes "ms Chat = Some mc" and "\<forall>u. score u (lw q) = 0"
  shows "choose_model lw ms q = Inr (Chat, mc)"
  using assms by (simp add: choose_model_def scores_def subscript_def)

lemma choose_model_pick:
  assumes "ms Chat = Some mc" and "ms Code = Some md"
    and "\<exists>u. 0 < score u (lw q)"
  shows "choose_model lw ms q =
    (let t = first_best (score Code (lw q)) (score Chat (lw q))
               (score Creative (lw q)) (score Analysis (lw q))
     in Inr (t, if t = Code then md else mc))"
proof -
  obtain a b c d where s: "score Code (lw q) = a" "score Chat (lw q) = b"
    "score Creative (lw q) = c" "score Analysis (lw q) = d" by simp
  from assms(3) have nz: "max (max (max a b) c) d \<noteq> 0"
    by (auto simp: task_ex s)
  have "model_mapping (first_best a b c d) = Code \<longleftrightarrow> first_best a b c d = Code"
    by (cases "first_best a b c d") simp_all
  moreover have "first_best a b c d \<noteq> Code \<Longrightarrow> model_mapping (first_best a b c d) = Chat"
    by (cases "first_best a b c d") simp_all
  ultimately show ?thesis
    using nz assms(1,2)
    by (simp add: choose_model_def scores_def Let_def s max_items max_values subscript_def
             del: max_from.simps) auto
qed

lemma two_models_Chat: "two_models Chat = Some (Ollama (cps ''chat-model''))"
  by (simp add: two_models_def)

lemma two_models_Code: "two_models Code = Some (Ollama (cps ''code-model''))"
  by (simp add: two_models_def)

text \<open>
  C1, as the claim states it, fails.  The text \<open>code chat\<close> scores one for code, one
  for chat and nothing else, a tie for the highest count; the claim's priority order
  gives chat, and \<open>choose_model\<close> returns code.
\<close>

theorem tie_code_chat_counterexample:
  "score Code (ascii_lower (cps ''code chat'')) = 1
   \<and> score Chat (ascii_lower (cps ''code chat'')) = 1
   \<and> score Creative (ascii_lower (cps ''code chat'')) = 0
   \<and> score Analysis (ascii_lower (cps ''code chat'')) = 0
   \<and> choose_model ascii_lower two_models (cps ''code chat'')
       = Inr (Code, Ollama (cps ''code-model''))"
  by (simp add: score_def cps_def ascii_lower_def choose_model_def scores_def
        two_models_def subscript_def)

text \<open>
  C1, amended: whenever some task type has a match, \<open>choose_model\<close> returns a task
  type with the highest count, and every task type that stands before it in the order
  code, chat, creative, analysis (the insertion order of \<open>scores\<close>) has a strictly
  smaller count.  So a tie for the highest count goes to the tied type that comes first
  in that order, whatever the text.
\<close>

theorem choose_model_tie_first_in_table:
  assumes "ms Chat = Some mc" and "ms Code = Some md"
    and "\<exists>u. 0 < score u (lw q)"
  shows "\<exists>t m. choose_model lw ms q = Inr (t, m)
     \<and> (\<forall>u. score u (lw q) \<le> score t (lw q))
     \<and> (\<forall>u \<in> set (takeWhile (\<lambda>u. u \<noteq> t) [Code, Chat, Creative, Analysis]).
           score u (lw q) < score t (lw q))"
proof -
  let ?t = "first_best (score Code (lw q)) (score Chat (lw q))
               (score Creative (lw q)) (score Analysis (lw q))"
  have pick: "choose_model lw ms q = Inr (?t, if ?t = Code then md else mc)"
    using choose_model_pick [where lw = lw and q = q and ms = ms, OF assms]
    by (simp add: Let_def)
  have top: "\<forall>u. score u (lw q) \<le> score ?t (lw q)"
    unfolding task_all by (auto simp: first_best_def)
  have before: "\<forall>u \<in> set (takeWhile (\<lambda>u. u \<noteq> ?t) [Code, Chat, Creative, Analysis]).
           score u (lw q) < score ?t (lw q)"
    by (auto simp: first_best_def)
  from pick top before show ?thesis by blast
qed

theorem choose_model_tie_first_in_table_witness:
  "two_models Chat = Some (Ollama (cps ''chat-model''))
   \<and> two_models Code = Some (Ollama (cps ''code-model''))
   \<and> 0 < score Creative (ascii_lower (cps ''Write code''))
   \<and> (\<exists>t m. choose_model ascii_lower two_models (cps ''Write code'') = Inr (t, m)
     \<and> (\<forall>u. score u (ascii_lower (cps ''Write code''))
             \<le> score t (ascii_lower (cps ''Write code'')))
     \<and> (\<forall>u \<in> set (takeWhile (\<lambda>u. u \<noteq> t) [Code, Chat, Creative, Analysis]).
           score u (ascii_lower (cps ''Write code''))
             < score t (ascii_lower (cps ''Write code''))))"
proof -
  have pos: "0 < score Creative (ascii_lower (cps ''Write code''))"
    by (simp add: score_def cps_def ascii_lower_def)
  then have ex: "\<exists>u. 0 < score u (ascii_lower (cps ''Write code''))"
    by (rule exI [where x = Creative])
  note r = choose_model_tie_first_in_table [where lw = ascii_lower and ms = two_models
        and q = "cps ''Write code''", OF two_models_Chat two_models_Code ex]
  show ?thesis
    by (intro conjI two_models_Chat two_models_Code pos r)
qed

lemma first_best_strict:
  assumes "\<forall>u. u \<noteq> t \<longrightarrow> score u s < score t s"
  shows "first_best (score Code s) (score Chat s) (score Creative s) (score Analysis s) = t"
proof -
  from assms have "\<forall>u. (u \<noteq> t \<longrightarrow> score u s < score t s)" by simp
  then show ?thesis
    unfolding task_all by (cases t) (auto simp: first_best_def)
qed

lemma q_debug_scores:
  "score Code (ascii_lower q_debug) = 1" "score Chat (ascii_lower q_debug) = 0"
  "score Creative (ascii_lower q_debug) = 0" "score Analysis (ascii_lower q_debug) = 0"
  by (simp_all add: score_def q_debug_def cps_def ascii_lower_def)

lemma q_story_scores:
  "score Code (ascii_lower q_story) = 0" "score Chat (ascii_lower q_story) = 0"
  "score Creative (ascii_lower q_story) = 1" "score Analysis (ascii_lower q_story) = 0"
  by (simp_all add: score_def q_story_def cps_def ascii_lower_def)

text \<open>
  C5: \<open>choose_model\<close> returns a task type whose count is the highest, together with
  the entry of \<open>models\<close> that the table \<open>model_mapping\<close> names for it: the code
  model for code, the chat model for chat, creative and analysis.  In particular a text
  on which one task type has strictly the highest count is given that type, so a text
  that matches the code pattern most is routed to the code model and one that matches
  another pattern most to the chat model.  With both models present, as \<open>__init__\<close>
  leaves them, the lookup never fails.
\<close>

theorem choose_model_routes_by_table:
  assumes "ms Chat = Some mc" and "ms Code = Some md"
  shows "(\<exists>t m. choose_model lw ms q = Inr (t, m) \<and> ms (model_mapping t) = Some m
            \<and> (\<forall>u. score u (lw q) \<le> score t (lw q))
            \<and> (t = Code \<longrightarrow> m = md) \<and> (t \<noteq> Code \<longrightarrow> m = mc))
     \<and> (\<forall>t. (\<forall>u. u \<noteq> t \<longrightarrow> score u (lw q) < score t (lw q)) \<longrightarrow>
            choose_model lw ms q = Inr (t, if t = Code then md else mc))
     \<and> model_mapping Code = Code \<and> model_mapping Chat = Chat
     \<and> model_mapping Creative = Chat \<and> model_mapping Analysis = Chat"
proof -
  let ?t = "first_best (score Code (lw q)) (score Chat (lw q))
               (score Creative (lw q)) (score Analysis (lw q))"
  have pick: "choose_model lw ms q = Inr (?t, if ?t = Code then md else mc)"
    if "\<exists>u. 0 < score u (lw q)"
    using choose_model_pick [where lw = lw and q = q and ms = ms, OF assms that]
    by (simp add: Let_def)
  have first: "\<exists>t m. choose_model lw ms q = Inr (t, m) \<and> ms (model_mapping t) = Some m
            \<and> (\<forall>u. score u (lw q) \<le> score t (lw q))
            \<and> (t = Code \<longrightarrow> m = md) \<and> (t \<noteq> Code \<longrightarrow> m = mc)"
  proof (cases "\<exists>u. 0 < score u (lw q)")
    case True
    have "ms (model_mapping ?t) = Some (if ?t = Code then md else mc)"
      using assms by (cases ?t) simp_all
    moreover have "\<forall>u. score u (lw q) \<le> score ?t (lw q)"
      unfolding task_all by (auto simp: first_best_def)
    ultimately show ?thesis using pick [OF True] by auto
  next
    case False
    then have z: "\<forall>u. score u (lw q) = 0" by simp
    then have "choose_model lw ms q = Inr (Chat, mc)"
      using choose_model_zero [where lw = lw and q = q and ms = ms, OF assms(1)] by simp
    with assms z show ?thesis by simp
  qed
  have strict: "choose_model lw ms q = Inr (t, if t = Code then md else mc)"
    if d: "\<forall>u. u \<noteq> t \<longrightarrow> score u (lw q) < score t (lw q)" for t
  proof -
    obtain u where "u \<noteq> t" by (cases t) auto
    with d have "0 < score t (lw q)" by (metis gr_implies_not0 gr0I)
    then have nz: "\<exists>u. 0 < score u (lw q)" ..
    from first_best_strict [OF d] pick [OF nz] show ?thesis by simp
  qed
  from first strict show ?thesis by simp
qed

theorem choose_model_routes_by_table_witness:
  "two_models Chat = Some (Ollama (cps ''chat-model''))
   \<and> two_models Code = Some (Ollama (cps ''code-model''))
   \<and> score Code (ascii_lower q_debug) = 1 \<and> score Chat (ascii_lower q_debug) = 0
   \<and> score Creative (ascii_lower q_debug) = 0 \<and> score Analysis (ascii_lower q_debug) = 0
   \<and> choose_model ascii_lower two_models q_debug = Inr (Code, Ollama (cps ''code-model''))
   \<and> score Code (ascii_lower q_story) = 0 \<and> score Chat (ascii_lower q_story) = 0
   \<and> score Creative (ascii_lower q_story) = 1 \<and> score Analysis (ascii_lower q_story) = 0
   \<and> choose_model ascii_lower two_models q_story = Inr (Creative, Ollama (cps ''chat-model''))"
proof -
  note d = choose_model_routes_by_table [where lw = ascii_lower and ms = two_models
      and q = q_debug, OF two_models_Chat two_models_Code]
  note s = choose_model_routes_by_table [where lw = ascii_lower and ms = two_models
      and q = q_story, OF two_models_Chat two_models_Code]
  have hd: "\<forall>u. u \<noteq> Code \<longrightarrow> score u (ascii_lower q_debug) < score Code (ascii_lower q_debug)"
    unfolding task_all by (simp add: q_debug_scores)
  have hs: "\<forall>u. u \<noteq> Creative \<longrightarrow>
      score u (ascii_lower q_story) < score Creative (ascii_lower q_story)"
    unfolding task_all by (simp add: q_story_scores)
  have 1: "choose_model ascii_lower two_models q_debug = Inr (Code, Ollama (cps ''code-model''))"
    using mp [OF spec [OF conjunct1 [OF conjunct2 [OF d]], of Code] hd] by simp
  have 2: "choose_model ascii_lower two_models q_story = Inr (Creative, Ollama (cps ''chat-model''))"
    using mp [OF spec [OF conjunct1 [OF conjunct2 [OF s]], of Creative] hs] by simp
  show ?thesis
    by (intro conjI two_models_Chat two_models_Code q_debug_scores q_story_scores 1 2)
qed

text \<open>
  C6: a text in which no pattern matches, so that all four scores are zero, is
  classified as chat, and the call returns the chat model rather than raising; the
  empty text is such a text.
\<close>

theorem choose_model_default_chat:
  assumes "ms Chat = Some mc"
  shows "((\<forall>u. score u (lw q) = 0) \<longrightarrow> choose_model lw ms q = Inr (Chat, mc))
     \<and> (lw [] = [] \<longrightarrow> choose_model lw ms [] = Inr (Chat, mc))"
  using choose_model_zero [where lw = lw and q = q and ms = ms, OF assms]
    choose_model_zero [where lw = lw and q = "[]" and ms = ms, OF assms]
  by (simp add: score_empty)

theorem choose_model_default_chat_witness:
  "two_models Chat = Some (Ollama (cps ''chat-model''))
   \<and> score Code (ascii_lower (cps ''Hello!'')) = 0
   \<and> score Chat (ascii_lower (cps ''Hello!'')) = 0
   \<and> score Creative (ascii_lower (cps ''Hello!'')) = 0
   \<and> score Analysis (ascii_lower (cps ''Hello!'')) = 0
   \<and> ascii_lower [] = []
   \<and> choose_model ascii_lower two_models (cps ''Hello!'') = Inr (Chat, Ollama (cps ''chat-model''))
   \<and> choose_model ascii_lower two_models [] = Inr (Chat, Ollama (cps ''chat-model''))"
proof -
  have z1: "score Code (ascii_lower (cps ''Hello!'')) = 0"
    by (simp add: score_def cps_def ascii_lower_def)
  have z2: "score Chat (ascii_lower (cps ''Hello!'')) = 0"
    by (simp add: score_def cps_def ascii_lower_def)
  have z3: "score Creative (ascii_lower (cps ''Hello!'')) = 0"
    by (simp add: score_def cps_def ascii_lower_def)
  have z4: "score Analysis (ascii_lower (cps ''Hello!'')) = 0"
    by (simp add: score_def cps_def ascii_lower_def)
  have z: "\<forall>u. score u (ascii_lower (cps ''Hello!'')) = 0"
    unfolding task_all using z1 z2 z3 z4 by blast
  have e: "ascii_lower [] = []" by (simp add: ascii_lower_def)
  have r: "choose_model ascii_lower two_models (cps ''Hello!'') = Inr (Chat, Ollama (cps ''chat-model''))
     \<and> choose_model ascii_lower two_models [] = Inr (Chat, Ollama (cps ''chat-model''))"
    using choose_model_default_chat [where lw = ascii_lower and ms = two_models
        and q = "cps ''Hello!''", OF two_models_Chat] z e
    by blast
  from two_models_Chat z1 z2 z3 z4 e r show ?thesis by blast
qed

section \<open>The assistant: \<open>MultiAgentAssistant\<close>\<close>



lemma process_query_code:
  assumes "chains a Chat = Some (LLMChain mc tc)"
    and "chains a Code = Some (LLMChain md td)"
    and "choose_model lw (models a) q = Inr (Code, m)"
  shows "process_query lw w a q tr =
    (case w_invoke w tr md (td @ q) of
       Inr r \<Rightarrow> (Inr r, tr @ [Invoke md (td @ q)])
     | Inl e \<Rightarrow>
         (let tr2 = tr @ [Invoke md (td @ q),
                Print (cps ''Error processing query with '' @ task_name Code
                       @ cps '' model: '' @ exn_str e),
                Print (cps ''Falling back to chat model'')]
          in (w_invoke w tr2 mc (tc @ q), tr2 @ [Invoke mc (tc @ q)])))"
  using assms by (simp add: process_query_def subscript_def Let_def split: sum.splits)

lemma init_cases:
  assumes "assistant_init av = Inr a"
  shows "\<exists>mc md. models a = [Chat \<mapsto> mc, Code \<mapsto> md]
     \<and> chains a = [Chat \<mapsto> LLMChain mc chat_template, Code \<mapsto> LLMChain md code_template]
     \<and> mc \<in> Ollama ` {mistral, neural_chat, llama2} \<and> (\<exists>n \<in> set av. mc = Ollama n)
     \<and> md = (if codellama \<in> set av then Ollama codellama else mc)"
  using assms by (auto simp add: assistant_init_def Let_def split: if_splits)


lemma codellama_neq: "codellama \<noteq> mistral" "codellama \<noteq> neural_chat" "codellama \<noteq> llama2"
  by (simp_all add: codellama_def mistral_def neural_chat_def llama2_def cps_def)



lemma classify_debug: "ms Code = Some md \<Longrightarrow> ms Chat = Some mc \<Longrightarrow>
  choose_model ascii_lower ms q_debug = Inr (Code, md)"
  by (simp add: q_debug_def choose_model_def scores_def score_def
        subscript_def cps_def ascii_lower_def)

lemma init_first_chat:
  assumes "assistant_init av = Inr a"
  shows "models a Chat = Some (Ollama (first_chat av)) \<and> first_chat av \<in> set av"
  using assms by (auto simp add: assistant_init_def first_chat_def Let_def split: if_splits)

lemma llama2_only: "codellama \<notin> set [llama2]"
  using codellama_neq by simp

lemma llama_init: "assistant_init [llama2] = Inr llama_assistant"
  using codellama_neq
  by (simp add: assistant_init_def llama_assistant_def Let_def mistral_def neural_chat_def
        llama2_def cps_def)

lemma first_chat_llama: "first_chat [llama2] = llama2"
  by (simp add: first_chat_def mistral_def neural_chat_def llama2_def cps_def)

text \<open>
  C4: when the code model is not among the available models and one of the three chat
  models is, \<open>__init__\<close> succeeds and binds \<open>models['code']\<close> to the very model it
  binds to \<open>models['chat']\<close>, which is the first of the three chat models that is
  available; the code chain is built on that model.  A query classified as code is then
  sent to that model under the programmer template, and when the model answers,
  \<open>process_query\<close> returns the answer after that single invocation.
\<close>

theorem code_downgrades_to_chat_model:
  assumes "codellama \<notin> set available"
    and "mistral \<in> set available \<or> neural_chat \<in> set available \<or> llama2 \<in> set available"
  shows "\<exists>a general. assistant_init available = Inr a
     \<and> general = Ollama (first_chat available) \<and> first_chat available \<in> set available
     \<and> models a Chat = Some general \<and> models a Code = Some general
     \<and> chains a Code = Some (LLMChain general code_template)
     \<and> (\<forall>query tr r. choose_model lw (models a) query = Inr (Code, general)
            \<and> w_invoke w tr general (code_template @ query) = Inr r
          \<longrightarrow> process_query lw w a query tr
                = (Inr r, tr @ [Invoke general (code_template @ query)]))"
proof -
  have "\<exists>a. assistant_init available = Inr a"
    using assms(2)
    by (cases "mistral \<in> set available"; cases "neural_chat \<in> set available")
       (simp_all add: assistant_init_def Let_def)
  then obtain a where a: "assistant_init available = Inr a" ..
  from init_cases [OF a] assms(1) obtain mc where
    m: "models a = [Chat \<mapsto> mc, Code \<mapsto> mc]" and
    c: "chains a = [Chat \<mapsto> LLMChain mc chat_template, Code \<mapsto> LLMChain mc code_template]"
    by auto
  from init_first_chat [OF a] m have g: "mc = Ollama (first_chat available)"
    and r: "first_chat available \<in> set available" by simp_all
  have "process_query lw w a query tr = (Inr r, tr @ [Invoke mc (code_template @ query)])"
    if "choose_model lw (models a) query = Inr (Code, mc)"
      and "w_invoke w tr mc (code_template @ query) = Inr r" for query tr r
    using process_query_code [where a = a and mc = mc and md = mc and tc = chat_template
        and td = code_template and lw = lw and q = query and m = mc and w = w and tr = tr] that c
    by simp
  with a m c g r show ?thesis by auto
qed

theorem code_downgrades_to_chat_model_witness:
  "codellama \<notin> set [llama2] \<and> llama2 \<in> set [llama2]
   \<and> assistant_init [llama2] = Inr llama_assistant
   \<and> models llama_assistant Chat = Some (Ollama llama2)
   \<and> models llama_assistant Code = Some (Ollama llama2)
   \<and> choose_model ascii_lower (models llama_assistant) q_debug = Inr (Code, Ollama llama2)
   \<and> w_invoke echo_world [] (Ollama llama2) (code_template @ q_debug) = Inr (cps ''ok'')
   \<and> process_query ascii_lower echo_world llama_assistant q_debug []
        = (Inr (cps ''ok''), [Invoke (Ollama llama2) (code_template @ q_debug)])"
proof -
  have h2: "mistral \<in> set [llama2] \<or> neural_chat \<in> set [llama2] \<or> llama2 \<in> set [llama2]"
    by simp
  from code_downgrades_to_chat_model [where lw = ascii_lower and w = echo_world,
      OF llama2_only h2]
  obtain a general where a: "assistant_init [llama2] = Inr a"
    and e: "general = Ollama (first_chat [llama2])"
    and g: "models a Chat = Some general" "models a Code = Some general"
    and p: "\<And>query tr r. choose_model ascii_lower (models a) query = Inr (Code, general)
            \<Longrightarrow> w_invoke echo_world tr general (code_template @ query) = Inr r
          \<Longrightarrow> process_query ascii_lower echo_world a query tr
                = (Inr r, tr @ [Invoke general (code_template @ query)])"
    by blast
  from a llama_init have al: "a = llama_assistant" by simp
  from e first_chat_llama have gl: "general = Ollama llama2" by simp
  have cl: "choose_model ascii_lower (models a) q_debug = Inr (Code, general)"
    by (rule classify_debug [OF g(2) g(1)])
  have iv: "w_invoke echo_world [] general (code_template @ q_debug) = Inr (cps ''ok'')"
    by (simp add: echo_world_def)
  from p [OF cl iv] have pq: "process_query ascii_lower echo_world a q_debug []
                = (Inr (cps ''ok''), [Invoke general (code_template @ q_debug)])" by simp
  show ?thesis
    using llama2_only llama_init g cl iv pq unfolding al gl by simp
qed








section \<open>\<open>process_command\<close> of main.py\<close>


lemma is_code_debug: "is_code_query ascii_lower q_debug"
  by (simp add: is_code_query_def q_debug_def code_keywords_def cps_def ascii_lower_def)


lemma q_debug_nonempty: "q_debug \<noteq> []"
  by (simp add: q_debug_def cps_def)

lemma process_command_code:
  assumes "cmd \<noteq> []" and "is_code_query lw cmd"
  shows "process_command lw w ag (Some cmd) tr
     = code_branch w ag cmd (tr @ [Log Info (cps ''Processing code query...'')])"
  using assms by (simp add: process_command_def)





lemma agent0_models:
  "agent_models agent0 Chat = Some (Ollama (cps ''chat-model''))"
  "agent_models agent0 Code = Some (Ollama (cps ''code-model''))"
  by (simp_all add: agent0_def two_models_def)




subsection \<open>The code block of a reply\<close>

lemma starts_with_iff: "starts_with k s \<longleftrightarrow> (\<exists>r. s = k @ r)"
  by (induction k s rule: starts_with.induct) auto

lemma str_in_iff: "str_in sub s \<longleftrightarrow> (\<exists>pre post. s = pre @ sub @ post)"
proof (induction s)
  case Nil
  then show ?case by simp
next
  case (Cons c cs)
  show ?case
  proof
    assume "str_in sub (c # cs)"
    then consider "starts_with sub (c # cs)" | "str_in sub cs" by auto
    then show "\<exists>pre post. c # cs = pre @ sub @ post"
    proof cases
      case 1
      then obtain r where "c # cs = sub @ r" by (auto simp: starts_with_iff)
      then have "c # cs = [] @ sub @ r" by simp
      then show ?thesis by blast
    next
      case 2
      with Cons obtain pre post where "cs = pre @ sub @ post" by blast
      then have "c # cs = (c # pre) @ sub @ post" by simp
      then show ?thesis by blast
    qed
  next
    assume "\<exists>pre post. c # cs = pre @ sub @ post"
    then obtain pre post where d: "c # cs = pre @ sub @ post" by blast
    show "str_in sub (c # cs)"
    proof (cases pre)
      case Nil
      with d have "starts_with sub (c # cs)" by (auto simp: starts_with_iff)
      then show ?thesis by simp
    next
      case (Cons p ps)
      with d have "cs = ps @ sub @ post" by simp
      with Cons.IH have "str_in sub cs" by blast
      then show ?thesis by simp
    qed
  qed
qed

lemma fence_close_nonempty: "fence_close \<noteq> []"
  by (simp add: fence_close_def)

lemma until_close_None: "until_close s = None \<Longrightarrow> s \<noteq> b @ fence_close @ post"
proof (induction s arbitrary: b)
  case Nil
  then show ?case by (simp add: fence_close_nonempty)
next
  case (Cons c cs)
  from Cons.prems have ns: "\<not> starts_with fence_close (c # cs)" and u: "until_close cs = None"
    by (auto split: if_splits)
  show ?case
  proof (cases b)
    case Nil
    with ns show ?thesis by (auto simp: starts_with_iff)
  next
    case (Cons x xs)
    with Cons.IH [OF u, of xs] show ?thesis by auto
  qed
qed

lemma until_close_Some:
  "until_close s = Some b \<Longrightarrow>
     (\<exists>post. s = b @ fence_close @ post)
     \<and> (\<forall>b' post'. s = b' @ fence_close @ post' \<longrightarrow> length b \<le> length b')"
proof (induction s arbitrary: b)
  case Nil
  then show ?case by simp
next
  case (Cons c cs)
  show ?case
  proof (cases "starts_with fence_close (c # cs)")
    case True
    with Cons.prems have "b = []" by simp
    with True show ?thesis by (auto simp: starts_with_iff)
  next
    case False
    with Cons.prems obtain b0 where u: "until_close cs = Some b0" and b: "b = c # b0"
      by auto
    from Cons.IH [OF u] obtain post where p: "cs = b0 @ fence_close @ post"
      and m: "\<And>b' post'. cs = b' @ fence_close @ post' \<Longrightarrow> length b0 \<le> length b'"
      by blast
    have "length b \<le> length b'" if d: "c # cs = b' @ fence_close @ post'" for b' post'
    proof (cases b')
      case Nil
      with d False show ?thesis by (auto simp: starts_with_iff)
    next
      case (Cons x xs)
      with d have "cs = xs @ fence_close @ post'" by simp
      from m [OF this] Cons b show ?thesis by simp
    qed
    with p b show ?thesis by auto
  qed
qed

lemma block_at_0:
  "block_at s 0 b \<longleftrightarrow> starts_with fence_open s
      \<and> (\<exists>post. drop (length fence_open) s = b @ fence_close @ post)"
  by (auto simp: block_at_def starts_with_iff)

lemma block_at_Suc: "block_at (c # cs) (Suc i) b \<longleftrightarrow> block_at cs i b"
proof
  assume "block_at (c # cs) (Suc i) b"
  then obtain pre post where l: "length pre = Suc i"
    and d: "c # cs = pre @ fence_open @ b @ fence_close @ post"
    by (auto simp: block_at_def)
  from l obtain x xs where "pre = x # xs" by (cases pre) auto
  with l d have "length xs = i \<and> cs = xs @ fence_open @ b @ fence_close @ post" by simp
  then show "block_at cs i b" unfolding block_at_def by blast
next
  assume "block_at cs i b"
  then obtain pre post where "length pre = i" "cs = pre @ fence_open @ b @ fence_close @ post"
    by (auto simp: block_at_def)
  then have "length (c # pre) = Suc i \<and> c # cs = (c # pre) @ fence_open @ b @ fence_close @ post"
    by simp
  then show "block_at (c # cs) (Suc i) b" unfolding block_at_def by blast
qed

lemma block_at_Nil: "\<not> block_at [] i b"
  by (simp add: block_at_def fence_close_nonempty)

lemma first_code_block_None: "first_code_block s = None \<Longrightarrow> \<not> block_at s i b"
proof (induction s arbitrary: i)
  case Nil
  then show ?case by (simp add: block_at_Nil)
next
  case (Cons c cs)
  from Cons.prems have rest: "first_code_block cs = None"
    by (auto split: if_splits option.splits)
  show ?case
  proof (cases i)
    case 0
    from Cons.prems have "starts_with fence_open (c # cs) \<Longrightarrow>
        until_close (drop (length fence_open) (c # cs)) = None"
      by (auto split: if_splits option.splits)
    then show ?thesis using until_close_None unfolding 0 block_at_0 by blast
  next
    case (Suc j)
    with Cons.IH [OF rest] show ?thesis by (simp add: block_at_Suc)
  qed
qed

lemma first_code_block_Some:
  "first_code_block s = Some b \<Longrightarrow>
     \<exists>i. block_at s i b
       \<and> (\<forall>i' b'. block_at s i' b' \<longrightarrow> i < i' \<or> (i = i' \<and> length b \<le> length b'))"
proof (induction s)
  case Nil
  then show ?case by simp
next
  case (Cons c cs)
  let ?r = "drop (length fence_open) (c # cs)"
  show ?case
  proof (cases "starts_with fence_open (c # cs) \<and> until_close ?r \<noteq> None")
    case True
    with Cons.prems have u: "until_close ?r = Some b" by auto
    from until_close_Some [OF u] True have here: "block_at (c # cs) 0 b"
      unfolding block_at_0 by blast
    have "0 < i' \<or> (0 = i' \<and> length b \<le> length b')" if "block_at (c # cs) i' b'" for i' b'
    proof (cases i')
      case 0
      from that have "block_at (c # cs) 0 b'" unfolding 0 .
      with until_close_Some [OF u] have "length b \<le> length b'" unfolding block_at_0 by blast
      with 0 show ?thesis by simp
    next
      case (Suc j)
      then show ?thesis by simp
    qed
    with here show ?thesis by blast
  next
    case False
    with Cons.prems have rest: "first_code_block cs = Some b"
      by (auto split: if_splits option.splits)
    from False have no0: "\<not> block_at (c # cs) 0 b'" for b'
      using until_close_None unfolding block_at_0 by blast
    from Cons.IH [OF rest] obtain i where at: "block_at cs i b"
      and m: "\<And>i' b'. block_at cs i' b' \<Longrightarrow> i < i' \<or> (i = i' \<and> length b \<le> length b')"
      by blast
    have "Suc i < i' \<or> (Suc i = i' \<and> length b \<le> length b')"
      if "block_at (c # cs) i' b'" for i' b'
    proof (cases i')
      case 0
      from that have "block_at (c # cs) 0 b'" unfolding 0 .
      with no0 show ?thesis by blast
    next
      case (Suc j)
      with that have "block_at cs j b'" by (simp add: block_at_Suc)
      from m [OF this] Suc show ?thesis by auto
    qed
    moreover from at have "block_at (c # cs) (Suc i) b" by (simp add: block_at_Suc)
    ultimately show ?thesis by blast
  qed
qed


lemma block_in_fence: "block_at s i b \<Longrightarrow> str_in (cps ''```python'') s"
proof -
  assume "block_at s i b"
  then obtain pre post where "s = pre @ fence_open @ b @ fence_close @ post"
    by (auto simp: block_at_def)
  then have "s = pre @ cps ''```python'' @ ([10] @ b @ fence_close @ post)"
    by (simp add: fence_open_def)
  then show ?thesis unfolding str_in_iff by blast
qed

lemma code_branch_block:
  assumes "agent_models ag Code = Some gd"
    and "w_invoke w tr gd (code_prompt cmd) = Inr resp"
    and "first_code_block resp = Some block"
  shows "code_branch w ag cmd tr =
    (let tr1 = tr @ [Invoke gd (code_prompt cmd)];
         script_name = cps ''generated_script_'' @ str_of_nat (w_time w tr1) @ cps ''.py''
     in case w_write w tr1 script_name block of
          None \<Rightarrow> (resp @ saved_note script_name, tr1 @ [WriteFile script_name block])
        | Some e \<Rightarrow> (code_error_msg, tr1 @ [WriteFile script_name block,
                        Log Error (cps ''Code generation error: '' @ exn_str e)]))"
proof -
  from first_code_block_Some [OF assms(3)] have "str_in (cps ''```python'') resp"
    using block_in_fence by blast
  with assms show ?thesis
    by (simp add: code_branch_def subscript_def Let_def split: option.splits)
qed

lemma reply_first_block: "first_code_block reply_block = Some (cps ''print(1)'')"
  by (simp add: reply_block_def fence_open_def fence_close_def cps_def)

lemma script_1712: "str_of_nat 1712 = cps ''1712''"
  by (simp add: str_of_nat.simps cps_def)

lemma nowrite_invoke: "w_invoke nowrite_world tr m p = Inr reply_block"
  by (simp add: nowrite_world_def)

lemma disk_invoke: "w_invoke disk_world tr m p = Inr reply_block"
  by (simp add: disk_world_def nowrite_world_def)

lemma msg_differs: "code_error_msg \<noteq> reply_block"
  by (simp add: code_error_msg_def reply_block_def cps_def)

text \<open>
  C7, as the claim states it, fails.  The code model's reply embeds a block and the file
  cannot be written: \<open>process_command\<close> then returns the fixed message of its
  \<open>except\<close> clause, not the reply, so the failure to persist the block does change
  the text returned to the caller.
\<close>

theorem write_failure_counterexample:
  "first_code_block reply_block = Some (cps ''print(1)'')
   \<and> w_invoke nowrite_world [Log Info (cps ''Processing code query...'')]
        (Ollama (cps ''code-model'')) (code_prompt q_debug) = Inr reply_block
   \<and> fst (process_command ascii_lower nowrite_world agent0 (Some q_debug) []) = code_error_msg
   \<and> code_error_msg \<noteq> reply_block"
proof -
  have "fst (process_command ascii_lower nowrite_world agent0 (Some q_debug) []) = code_error_msg"
    using code_branch_block [where w = nowrite_world and ag = agent0 and cmd = q_debug
        and tr = "[Log Info (cps ''Processing code query...'')]",
        OF agent0_models(2) nowrite_invoke reply_first_block]
    by (simp add: process_command_code [OF q_debug_nonempty is_code_debug] Let_def
          nowrite_world_def dead_world_def)
  with reply_first_block nowrite_invoke msg_differs show ?thesis by simp
qed

text \<open>
  C7, amended: when the code model's reply to a code query embeds a code block, the
  block that \<open>process_command\<close> writes is the one whose opening fence comes first and,
  from there, the one that ends at the nearest closing fence; it is written to the file
  \<open>generated_script_<time>.py\<close>.  When the write succeeds the text returned is the
  reply followed by a note that names the file; when the write fails the text returned
  is the fixed message of the \<open>except\<close> clause, and the reply is dropped.
\<close>

theorem code_block_saved_or_error:
  assumes "cmd \<noteq> []" and "is_code_query lw cmd" and "agent_models ag Code = Some gd"
    and "w_invoke w (tr @ [Log Info (cps ''Processing code query...'')]) gd (code_prompt cmd)
           = Inr resp"
    and "first_code_block resp = Some block"
  shows "(let tr1 = tr @ [Log Info (cps ''Processing code query...''),
                          Invoke gd (code_prompt cmd)];
              script_name = cps ''generated_script_'' @ str_of_nat (w_time w tr1) @ cps ''.py''
          in (w_write w tr1 script_name block = None \<longrightarrow>
                process_command lw w ag (Some cmd) tr
                  = (resp @ saved_note script_name, tr1 @ [WriteFile script_name block]))
           \<and> (\<forall>e. w_write w tr1 script_name block = Some e \<longrightarrow>
                process_command lw w ag (Some cmd) tr
                  = (code_error_msg, tr1 @ [WriteFile script_name block,
                       Log Error (cps ''Code generation error: '' @ exn_str e)])))
     \<and> (\<exists>i. block_at resp i block
           \<and> (\<forall>i' b'. block_at resp i' b' \<longrightarrow> i < i' \<or> (i = i' \<and> length block \<le> length b')))"
proof
  show "let tr1 = tr @ [Log Info (cps ''Processing code query...''),
                          Invoke gd (code_prompt cmd)];
              script_name = cps ''generated_script_'' @ str_of_nat (w_time w tr1) @ cps ''.py''
          in (w_write w tr1 script_name block = None \<longrightarrow>
                process_command lw w ag (Some cmd) tr
                  = (resp @ saved_note script_name, tr1 @ [WriteFile script_name block]))
           \<and> (\<forall>e. w_write w tr1 script_name block = Some e \<longrightarrow>
                process_command lw w ag (Some cmd) tr
                  = (code_error_msg, tr1 @ [WriteFile script_name block,
                       Log Error (cps ''Code generation error: '' @ exn_str e)]))"
    using code_branch_block [OF assms(3,4,5)]
    by (simp add: process_command_code [OF assms(1,2)] Let_def)
  show "\<exists>i. block_at resp i block
           \<and> (\<forall>i' b'. block_at resp i' b' \<longrightarrow> i < i' \<or> (i = i' \<and> length block \<le> length b'))"
    by (rule first_code_block_Some [OF assms(5)])
qed

theorem code_block_saved_or_error_witness:
  "q_debug \<noteq> [] \<and> is_code_query ascii_lower q_debug
   \<and> first_code_block reply_block = Some (cps ''print(1)'')
   \<and> process_command ascii_lower disk_world agent0 (Some q_debug) []
       = (reply_block @ saved_note (cps ''generated_script_1712.py''),
          [Log Info (cps ''Processing code query...''),
           Invoke (Ollama (cps ''code-model'')) (code_prompt q_debug),
           WriteFile (cps ''generated_script_1712.py'') (cps ''print(1)'')])"
proof -
  note r = code_block_saved_or_error [where lw = ascii_lower and w = disk_world and tr = "[]",
      OF q_debug_nonempty is_code_debug agent0_models(2) _ reply_first_block]
  have t: "w_time disk_world tr = 1712" for tr
    by (simp add: disk_world_def nowrite_world_def)
  have wr: "w_write disk_world tr n c = None" for tr n c
    by (simp add: disk_world_def)
  have n: "cps ''generated_script_'' @ cps ''1712'' @ cps ''.py'' = cps ''generated_script_1712.py''"
    by (simp add: cps_def)
  from conjunct1 [OF r] have "process_command ascii_lower disk_world agent0 (Some q_debug) []
       = (reply_block @ saved_note (cps ''generated_script_1712.py''),
          [Log Info (cps ''Processing code query...''),
           Invoke (Ollama (cps ''code-model'')) (code_prompt q_debug),
           WriteFile (cps ''generated_script_1712.py'') (cps ''print(1)'')])"
    by (simp add: disk_invoke Let_def t wr script_1712 n)
  with q_debug_nonempty is_code_debug reply_first_block show ?thesis by simp
qed

section \<open>Speech: \<open>speak\<close> and \<open>listen\<close> of main.py\<close>

lemma tts_requests_append: "tts_requests (xs @ ys) = tts_requests xs @ tts_requests ys"
  by (induction xs rule: tts_requests.induct) simp_all



lemma en_neq_fa: "cps ''en'' \<noteq> cps ''fa''"
  by (simp add: cps_def)

lemma speak_lang_fa: "speak_lang text = cps ''fa'' \<longleftrightarrow> (\<forall>c \<in> set text. 128 \<le> c)"
  using en_neq_fa by (auto simp: speak_lang_def list_ex_iff not_less [symmetric])

lemma speak_lang_en: "speak_lang text = cps ''en'' \<longleftrightarrow> (\<exists>c \<in> set text. c < 128)"
  using en_neq_fa by (auto simp: speak_lang_def list_ex_iff not_less)

lemma speak_loop_tts:
  "\<exists>k. k \<le> length as \<and> (as \<noteq> [] \<longrightarrow> 1 \<le> k)
     \<and> tts_requests (snd (speak_loop w ag text mr as st))
         = tts_requests (snd st) @ replicate k (text, speak_lang text)"
proof (induction as arbitrary: st)
  case Nil
  then show ?case by simp
next
  case (Cons a as)
  obtain c tr where st: "st = (c, tr)" by (cases st)
  have step: "\<exists>k\<le>Suc (length as). Suc 0 \<le> k
     \<and> tts_requests (snd (speak_loop w ag text mr as (Suc c, tr')))
         = tts_requests tr @ replicate k (text, speak_lang text)"
    if "tts_requests tr' = tts_requests tr @ [(text, speak_lang text)]" for tr'
  proof -
    from Cons.IH [of "(Suc c, tr')"] obtain k where "k \<le> length as"
      and "tts_requests (snd (speak_loop w ag text mr as (Suc c, tr')))
         = tts_requests tr' @ replicate k (text, speak_lang text)" by auto
    with that have "Suc k \<le> Suc (length as) \<and> Suc 0 \<le> Suc k
       \<and> tts_requests (snd (speak_loop w ag text mr as (Suc c, tr')))
         = tts_requests tr @ replicate (Suc k) (text, speak_lang text)"
      by (simp add: replicate_append_same)
    then show ?thesis by blast
  qed
  have fin: "\<exists>k\<le>Suc (length as). Suc 0 \<le> k
     \<and> tts_requests tr' = tts_requests tr @ replicate k (text, speak_lang text)"
    if "tts_requests tr' = tts_requests tr @ [(text, speak_lang text)]" for tr'
    using that by (intro exI [where x = 1]) simp
  show ?case
    unfolding st
    apply (simp add: Let_def split: option.splits del: replicate.simps)
    apply (intro conjI impI allI)
    by (rule step fin; simp add: tts_requests_append)+
qed






text \<open>
  C9, as the claim states it, fails.  The text \<open>mixed_text\<close> contains the Persian
  letter with code point 1587, which is not ASCII, and yet the language chosen for it
  is \<open>en\<close>: one ASCII character anywhere in the text is enough for that.
\<close>

theorem mixed_text_english_counterexample:
  "1587 \<in> set mixed_text \<and> \<not> (1587::nat) < 128 \<and> speak_lang mixed_text = cps ''en''"
  by (simp add: mixed_text_def salam_def speak_lang_def cps_def)

text \<open>
  C9, amended: the language is chosen by \<open>speak\<close> from the characters of the text
  alone.  It is \<open>fa\<close> exactly when no character of the text is ASCII (the empty text
  included) and \<open>en\<close> exactly when at least one character is ASCII; every synthesis
  request that \<open>speak\<close> makes, one to three of them, carries the text and that
  language.
\<close>

theorem speak_lang_by_ascii:
  "(speak_lang text = cps ''fa'' \<longleftrightarrow> (\<forall>c \<in> set text. 128 \<le> c))
   \<and> (speak_lang text = cps ''en'' \<longleftrightarrow> (\<exists>c \<in> set text. c < 128))
   \<and> (\<exists>k. 1 \<le> k \<and> k \<le> 3
         \<and> tts_requests (snd (speak w ag text st))
             = tts_requests (snd st) @ replicate k (text, speak_lang text))"
proof -
  obtain k where "k \<le> length [0..<3::nat]" "1 \<le> k"
    "tts_requests (snd (speak_loop w ag text 3 [0..<3]
          (fst st, snd st @ [Print (10 # cps ''AI: '' @ text)])))
       = tts_requests (snd (fst st, snd st @ [Print (10 # cps ''AI: '' @ text)]))
         @ replicate k (text, speak_lang text)"
    using speak_loop_tts [of "[0..<3]" w ag "text" "3"
        "(fst st, snd st @ [Print (10 # cps ''AI: '' @ text)])"]
    by auto
  then have "1 \<le> k \<and> k \<le> 3
         \<and> tts_requests (snd (speak w ag text st))
             = tts_requests (snd st) @ replicate k (text, speak_lang text)"
    by (simp add: speak_def tts_requests_append)
  then show ?thesis using speak_lang_fa speak_lang_en by blast
qed

theorem speak_lang_by_ascii_witness:
  "speak_lang salam = cps ''fa'' \<and> speak_lang [] = cps ''fa''
   \<and> speak_lang (cps ''Goodbye!'') = cps ''en''"
proof -
  have 1: "\<forall>c \<in> set salam. 128 \<le> c" by (simp add: salam_def)
  have 2: "\<forall>c \<in> set ([]::pystr). 128 \<le> c" by simp
  have 3: "\<exists>c \<in> set (cps ''Goodbye!''). c < 128" by (simp add: cps_def)
  from 1 2 3 speak_lang_by_ascii [of salam] speak_lang_by_ascii [of "[]"]
    speak_lang_by_ascii [of "cps ''Goodbye!''"]
  show ?thesis by blast
qed

subsection \<open>\<open>listen\<close>\<close>















section \<open>The command loops: \<open>run\<close> of main.py and of multiagent.py\<close>













end
